theory Spec2Isabelle
  imports Main "HOL-Library.Word"
begin

section \<open>The pthread wrapper of APEX (src/apex/pthread\_wrapper.hpp)\<close>

text \<open>
  The class \<open>apex::pthread_wrapper\<close> owns one worker thread, a termination flag, a mutex, a
  condition variable and a timeout. The worker paces its loop with \<open>wait()\<close>; the owner ends
  it with \<open>stop_thread()\<close>.

  The embedding is sequential: each method is a function on the object's state. What the
  method cannot know by itself is an argument of the function: the time \<open>gettimeofday\<close>
  stores, the code \<open>pthread_cond_timedwait\<close> and \<open>pthread_join\<close> return, and the values the
  loads of \<open>_running\<close> observe (the worker writes that flag, so to the owner every load is an
  input), and for \<open>wait_overtaken\<close> the calls of \<open>set_timeout\<close> that the owner makes
  while the worker is inside \<open>wait()\<close>. Every call of a primitive, every store to \<open>done\<close> and every load of \<open>_running\<close> is
  appended to a trace kept with the state, in program order.

  Integer types are those of the LP64 targets the header compiles for (it excludes Windows
  and Apple): \<open>int\<close> and \<open>unsigned int\<close> have 32 bits, \<open>long\<close>, \<open>time_t\<close> and
  \<open>suseconds_t\<close> have 64. Signed arithmetic is modelled as wrapping.
\<close>

subsection \<open>Data\<close>

text \<open>\<open>struct timeval\<close> and \<open>struct timespec\<close> of the C library.\<close>

record timeval =
  tv_sec :: "64 word"
  tv_usec :: "64 word"

record timespec =
  tv_sec :: "64 word"
  tv_nsec :: "64 word"

text \<open>\<open>#define MILLION 1000000\<close>\<close>

definition MILLION :: "32 word" where
  "MILLION = 1000000"

text \<open>The error numbers the header compares with, at their Linux values (\<open>errno.h\<close>).\<close>

definition EPERM :: int where
  "EPERM = 1"

definition ESRCH :: int where
  "ESRCH = 3"

definition EINVAL :: int where
  "EINVAL = 22"

definition EDEADLK :: int where
  "EDEADLK = 35"

definition ETIMEDOUT :: int where
  "ETIMEDOUT = 110"

text \<open>
  The actions a method performs on the object's primitives and shared flags. \<open>Join\<close> and
  \<open>Cond_timedwait\<close> carry the code the call returned, \<open>Cond_timedwait\<close> also the deadline it
  was given.
\<close>

datatype event =
    Store_done bool
  | Cond_signal
  | Load_running bool
  | Join int
  | Perror
  | Gettimeofday timeval
  | Mutex_lock
  | Cond_timedwait timespec int
  | Mutex_unlock

text \<open>
  The fields of the class that the methods below read or write. \<open>done\<close> is \<open>done_flag\<close>
  here; \<open>mutex_locked\<close> says whether the thread calling \<open>wait()\<close> holds \<open>_my_mutex\<close>
  (no other method touches the mutex: the lock and unlock in \<open>stop_thread\<close> are commented
  out); \<open>trace\<close> is the record of actions so far. \<open>_running\<close> is not a field: its loads are
  inputs.
\<close>

record pthread_wrapper =
  done_flag :: bool
  timeout_microseconds :: "32 word"
  attached :: bool
  mutex_locked :: bool
  trace :: "event list"

text \<open>The outcome of a call that contains the polling loop.\<close>

datatype status = Returned | Spinning

subsection \<open>Primitives\<close>

definition store_done :: "bool \<Rightarrow> pthread_wrapper \<Rightarrow> pthread_wrapper" where
  "store_done b w = w\<lparr>done_flag := b, trace := trace w @ [Store_done b]\<rparr>"

definition pthread_cond_signal :: "pthread_wrapper \<Rightarrow> pthread_wrapper" where
  "pthread_cond_signal w = w\<lparr>trace := trace w @ [Cond_signal]\<rparr>"

definition load_running :: "bool \<Rightarrow> pthread_wrapper \<Rightarrow> pthread_wrapper" where
  "load_running r w = w\<lparr>trace := trace w @ [Load_running r]\<rparr>"

definition pthread_join :: "int \<Rightarrow> pthread_wrapper \<Rightarrow> pthread_wrapper" where
  "pthread_join ret w = w\<lparr>trace := trace w @ [Join ret]\<rparr>"

definition perror :: "pthread_wrapper \<Rightarrow> pthread_wrapper" where
  "perror w = w\<lparr>trace := trace w @ [Perror]\<rparr>"

definition gettimeofday :: "timeval \<Rightarrow> pthread_wrapper \<Rightarrow> pthread_wrapper" where
  "gettimeofday tp w = w\<lparr>trace := trace w @ [Gettimeofday tp]\<rparr>"

text \<open>
  After \<open>pthread_mutex_lock\<close> the caller holds the mutex (the mutex is error-checking, so
  locking it again while holding it is an error return, which \<open>wait()\<close> ignores, and not a
  deadlock). \<open>pthread_cond_timedwait\<close> returns with the mutex as it was at the call.
\<close>

definition pthread_mutex_lock :: "pthread_wrapper \<Rightarrow> pthread_wrapper" where
  "pthread_mutex_lock w = w\<lparr>mutex_locked := True, trace := trace w @ [Mutex_lock]\<rparr>"

definition pthread_mutex_unlock :: "pthread_wrapper \<Rightarrow> pthread_wrapper" where
  "pthread_mutex_unlock w = w\<lparr>mutex_locked := False, trace := trace w @ [Mutex_unlock]\<rparr>"

definition pthread_cond_timedwait ::
    "timespec \<Rightarrow> int \<Rightarrow> pthread_wrapper \<Rightarrow> pthread_wrapper" where
  "pthread_cond_timedwait ts rc w = w\<lparr>trace := trace w @ [Cond_timedwait ts rc]\<rparr>"

subsection \<open>set\_timeout\<close>

definition set_timeout :: "32 word \<Rightarrow> pthread_wrapper \<Rightarrow> pthread_wrapper" where
  "set_timeout timeout w = w\<lparr>timeout_microseconds := timeout\<rparr>"

subsection \<open>wait\<close>

text \<open>
  Lines 146 to 156: the deadline from the timeout and the time \<open>tp\<close>. \<open>seconds\<close>,
  \<open>microseconds\<close> and \<open>tmp\<close> are \<open>int\<close>; the division and the remainder are unsigned; the
  sum \<open>tp.tv_usec + microseconds\<close> is a \<open>long\<close> narrowed to \<open>int\<close>; the test
  \<open>tmp > MILLION\<close> is signed; \<open>1000 * tmp\<close> is an \<open>int\<close> product widened to \<open>long\<close>.
\<close>

definition deadline :: "32 word \<Rightarrow> timeval \<Rightarrow> timespec" where
  "deadline timeout tp =
    (let seconds = timeout div MILLION;
         microseconds = timeout mod MILLION;
         tmp = (ucast (tv_usec tp + scast microseconds) :: 32 word);
         (tmp, seconds) =
           (if MILLION <s tmp then (tmp - MILLION, seconds + 1) else (tmp, seconds))
     in \<lparr>tv_sec = timeval.tv_sec tp + scast seconds, tv_nsec = scast (1000 * tmp)\<rparr>)"

text \<open>
  Lines 157 to 168: lock, wait on the condition variable until \<open>ts\<close>, and branch on the
  code \<open>rc\<close> that the wait returned.
\<close>

definition timed_wait :: "timespec \<Rightarrow> int \<Rightarrow> pthread_wrapper \<Rightarrow> bool \<times> pthread_wrapper" where
  "timed_wait ts rc w =
    (let w1 = pthread_mutex_lock w;
         w2 = pthread_cond_timedwait ts rc w1
     in if rc = ETIMEDOUT then (True, w2)
        else if rc = EINVAL then (False, pthread_mutex_unlock w2)
        else if rc = EPERM then (False, w2)
        else (True, w2))"

text \<open>
  \<open>wait()\<close>, the branch for Linux (lines 127, 128 and 142 to 168). \<open>tp\<close> is the time
  \<open>gettimeofday\<close> stores and \<open>rc\<close> the code \<open>pthread_cond_timedwait\<close> returns.
\<close>

definition wait :: "timeval \<Rightarrow> int \<Rightarrow> pthread_wrapper \<Rightarrow> bool \<times> pthread_wrapper" where
  "wait tp rc w =
    (if done_flag w then (False, w)
     else
       let w1 = gettimeofday tp w;
           ts = deadline (timeout_microseconds w1) tp
       in timed_wait ts rc w1)"

text \<open>
  \<open>wait()\<close> while the owner calls \<open>set_timeout\<close>. \<open>_timeout_microseconds\<close> is a plain
  field that \<open>wait()\<close> reads where it needs it: line 146 reads it for the seconds and
  line 147 reads it again for the microseconds, both after the check of \<open>done\<close> and the
  reading of the clock. \<open>deadline_reads\<close> is the computation of lines 146 to 156 with
  the two values read kept apart.
\<close>

definition deadline_reads :: "32 word \<Rightarrow> 32 word \<Rightarrow> timeval \<Rightarrow> timespec" where
  "deadline_reads timeout1 timeout2 tp =
    (let seconds = timeout1 div MILLION;
         microseconds = timeout2 mod MILLION;
         tmp = (ucast (tv_usec tp + scast microseconds) :: 32 word);
         (tmp, seconds) =
           (if MILLION <s tmp then (tmp - MILLION, seconds + 1) else (tmp, seconds))
     in \<lparr>tv_sec = timeval.tv_sec tp + scast seconds, tv_nsec = scast (1000 * tmp)\<rparr>)"

text \<open>A call of \<open>set_timeout\<close> by the owner at some point of \<open>wait()\<close>, or none.\<close>

definition overtake :: "32 word option \<Rightarrow> pthread_wrapper \<Rightarrow> pthread_wrapper" where
  "overtake i w = (case i of None \<Rightarrow> w | Some timeout \<Rightarrow> set_timeout timeout w)"

text \<open>
  \<open>wait()\<close> again, line by line, with the calls of \<open>set_timeout\<close> that overtake it:
  \<open>i1\<close> lands after the call has started (past line 128) and before line 146, \<open>i2\<close>
  between lines 146 and 147, \<open>i3\<close> after line 147, while \<open>wait()\<close> computes, locks
  and blocks.
\<close>

definition wait_overtaken ::
    "timeval \<Rightarrow> int \<Rightarrow> 32 word option \<Rightarrow> 32 word option \<Rightarrow> 32 word option \<Rightarrow>
      pthread_wrapper \<Rightarrow> bool \<times> pthread_wrapper" where
  "wait_overtaken tp rc i1 i2 i3 w =
    (if done_flag w then (False, w)
     else
       let w1 = overtake i1 (gettimeofday tp w);
           timeout1 = timeout_microseconds w1;
           w2 = overtake i2 w1;
           timeout2 = timeout_microseconds w2;
           ts = deadline_reads timeout1 timeout2 tp;
           w3 = overtake i3 w2
       in timed_wait ts rc w3)"

subsection \<open>stop\_thread\<close>

text \<open>
  The loop of line 118, \<open>while (_running.load()) {}\<close>. The list holds the values the
  successive loads observe; when it ends before a load has seen \<open>false\<close>, the loop is
  still spinning.
\<close>

fun poll_running :: "bool list \<Rightarrow> pthread_wrapper \<Rightarrow> status \<times> pthread_wrapper" where
  "poll_running [] w = (Spinning, w)"
| "poll_running (r # rs) w =
    (let w1 = load_running r w
     in if r then poll_running rs w1 else (Returned, w1))"

text \<open>
  \<open>stop_thread()\<close>, lines 89 to 119. \<open>r\<close> is the value the load of \<open>_running\<close> in the
  condition of line 98 observes, \<open>ret\<close> the code \<open>pthread_join\<close> returns, \<open>rs\<close> the values
  the loads of the loop observe. \<open>_attached\<close> is read only when \<open>_running\<close> was true.
\<close>

definition stop_thread ::
    "bool \<Rightarrow> int \<Rightarrow> bool list \<Rightarrow> pthread_wrapper \<Rightarrow> status \<times> pthread_wrapper" where
  "stop_thread r ret rs w =
    (let w1 = store_done True w;
         w2 = pthread_cond_signal w1;
         w3 = load_running r w2
     in if r \<and> attached w3 then
          let w4 = pthread_join ret w3
          in if ret \<noteq> 0 then
               (if ret = ESRCH then (Returned, w4)
                else if ret = EINVAL then (Returned, w4)
                else if ret = EDEADLK then (Returned, w4)
                else (Returned, perror w4))
             else poll_running rs w4
        else poll_running rs w3)"

section \<open>The deadline\<close>

lemma sint_of_nat_32: "n < 2 ^ 31 \<Longrightarrow> sint (of_nat n :: 32 word) = int n"
  by (simp add: signed_of_nat signed_take_bit_int_eq_self)

lemma scast_of_nat_32_64: "n < 2 ^ 31 \<Longrightarrow> (scast (of_nat n :: 32 word) :: 64 word) = of_nat n"
  by (simp add: scast_eq sint_of_nat_32)

lemma ucast_of_nat_64_32: "(ucast (of_nat n :: 64 word) :: 32 word) = of_nat n"
  by (rule bit_word_eqI) (auto simp add: bit_ucast_iff bit_of_nat_iff)

lemma split_timeout:
  "T div MILLION = of_nat (unat T div 1000000) \<and> T mod MILLION = of_nat (unat T mod 1000000)"
proof -
  have "unat (T div MILLION) = unat T div 1000000" "unat (T mod MILLION) = unat T mod 1000000"
    by (simp_all add: unat_div unat_mod MILLION_def)
  moreover have "(of_nat (unat x) :: 32 word) = x" for x
    by simp
  ultimately show ?thesis
    by metis
qed

lemma timeout_seconds_bound: "unat (T :: 32 word) div 1000000 < 4295"
proof -
  have "unat T < 2 ^ 32"
    using unsigned_less [of T] by simp
  then show ?thesis
    by simp
qed

text \<open>
  The deadline in natural numbers, for a microsecond component of the clock of at most one
  million: \<open>q\<close> whole seconds and \<open>m\<close> microseconds of timeout, and a carry exactly when
  the microseconds add up to more than one million.
\<close>

lemma deadline_nat:
  fixes T :: "32 word" and U S :: "64 word"
  assumes u: "unat U \<le> 1000000"
  defines "q \<equiv> unat T div 1000000" and "m \<equiv> unat T mod 1000000"
  shows "deadline T \<lparr>timeval.tv_sec = S, tv_usec = U\<rparr> =
    (if 1000000 < unat U + m
     then \<lparr>tv_sec = S + of_nat q + 1, tv_nsec = of_nat (1000 * (unat U + m - 1000000))\<rparr>
     else \<lparr>tv_sec = S + of_nat q, tv_nsec = of_nat (1000 * (unat U + m))\<rparr>)"
proof -
  define a where "a = unat U + m"
  have m: "m < 1000000"
    by (simp add: m_def)
  have q: "q < 4295"
    unfolding q_def by (rule timeout_seconds_bound)
  have a: "a < 2000000"
    using u m by (simp add: a_def)
  have sec: "T div MILLION = of_nat q" and mic: "T mod MILLION = of_nat m"
    using split_timeout [of T] by (simp_all add: q_def m_def)
  have sm: "(scast (of_nat m :: 32 word) :: 64 word) = of_nat m"
    using m by (intro scast_of_nat_32_64) simp
  have sum: "U + scast (of_nat m :: 32 word) = of_nat a"
    unfolding sm a_def by simp
  have tmp: "(ucast (U + scast (of_nat m :: 32 word)) :: 32 word) = of_nat a"
    unfolding sum by (rule ucast_of_nat_64_32)
  have sa: "sint (of_nat a :: 32 word) = int a"
    using a by (intro sint_of_nat_32) simp
  have sM: "sint MILLION = 1000000"
    by (simp add: MILLION_def)
  have cmp: "MILLION <s (of_nat a :: 32 word) \<longleftrightarrow> 1000000 < a"
    by (simp add: word_sless_alt sa sM)
  have sub: "1000000 < a \<Longrightarrow> (of_nat a :: 32 word) - MILLION = of_nat (a - 1000000)"
    by (simp add: MILLION_def of_nat_diff)
  have nsec: "(scast (1000 * (of_nat b :: 32 word)) :: 64 word) = of_nat (1000 * b)"
    if b: "b \<le> 1000000" for b
  proof -
    have "1000 * (of_nat b :: 32 word) = of_nat (1000 * b)"
      by simp
    moreover have "1000 * b < 2 ^ 31"
      using b by simp
    ultimately show ?thesis
      by (simp only: scast_of_nat_32_64)
  qed
  have sq: "(scast (of_nat q :: 32 word) :: 64 word) = of_nat q"
    using q by (intro scast_of_nat_32_64) simp
  have sq1: "(scast (of_nat q + 1 :: 32 word) :: 64 word) = of_nat q + 1"
  proof -
    have "(of_nat q + 1 :: 32 word) = of_nat (q + 1)"
      by simp
    moreover have "q + 1 < 2 ^ 31"
      using q by simp
    ultimately have "(scast (of_nat q + 1 :: 32 word) :: 64 word) = of_nat (q + 1)"
      by (simp only: scast_of_nat_32_64)
    then show ?thesis
      by simp
  qed
  show ?thesis
  proof (cases "1000000 < a")
    case True
    then have "a - 1000000 \<le> 1000000"
      using a by simp
    from nsec [OF this] True show ?thesis
      by (simp add: deadline_def sec mic tmp cmp sub sq1 a_def [symmetric] add.assoc)
  next
    case False
    then have "a \<le> 1000000"
      by simp
    from nsec [OF this] False show ?thesis
      by (simp add: deadline_def sec mic tmp cmp sq a_def [symmetric])
  qed
qed

text \<open>
  A \<open>long\<close> that is not negative has the same value read as unsigned.
\<close>

lemma unat_sint:
  fixes U :: "64 word"
  assumes "0 \<le> sint U"
  shows "int (unat U) = sint U"
proof -
  have "sint U < 2 ^ 63"
    using sint_lt [of U] by simp
  then have "sint U < 2 ^ 64"
    by simp
  then have "uint U = sint U"
    using assms by (simp add: uint_sint take_bit_int_eq_self)
  then show ?thesis
    by (simp only: uint_nat)
qed

section \<open>What the methods do, path by path\<close>

text \<open>
  The polling loop returns exactly when one of its loads observes \<open>false\<close>, after the
  loads up to and including the first such one; otherwise every value of the list has been
  loaded and the loop is still spinning.
\<close>

lemma poll_running_eq:
  "poll_running rs w =
    (if False \<in> set rs
     then (Returned,
       w\<lparr>trace := trace w @ map Load_running (takeWhile id rs) @ [Load_running False]\<rparr>)
     else (Spinning, w\<lparr>trace := trace w @ map Load_running rs\<rparr>))"
  by (induction rs arbitrary: w) (auto simp: load_running_def)

lemma wait_eq:
  "\<not> done_flag w \<Longrightarrow>
    wait tp rc w =
      (rc \<noteq> EINVAL \<and> rc \<noteq> EPERM,
       w\<lparr>mutex_locked := rc \<noteq> EINVAL,
         trace := trace w @
           [Gettimeofday tp, Mutex_lock, Cond_timedwait (deadline (timeout_microseconds w) tp) rc]
           @ (if rc = EINVAL then [Mutex_unlock] else [])\<rparr>)"
  by (simp add: wait_def timed_wait_def gettimeofday_def pthread_mutex_lock_def
      pthread_cond_timedwait_def pthread_mutex_unlock_def Let_def EINVAL_def ETIMEDOUT_def
      EPERM_def)

lemma stop_thread_skip:
  "\<not> (r \<and> attached w) \<Longrightarrow>
    stop_thread r ret rs w =
      poll_running rs (w\<lparr>done_flag := True,
        trace := trace w @ [Store_done True, Cond_signal, Load_running r]\<rparr>)"
  by (auto simp add: stop_thread_def Let_def store_done_def pthread_cond_signal_def
      load_running_def)

lemma stop_thread_joined:
  "r \<Longrightarrow> attached w \<Longrightarrow>
    stop_thread r 0 rs w =
      poll_running rs (w\<lparr>done_flag := True,
        trace := trace w @ [Store_done True, Cond_signal, Load_running True, Join 0]\<rparr>)"
  by (simp add: stop_thread_def Let_def store_done_def pthread_cond_signal_def
      load_running_def pthread_join_def)

lemma stop_thread_join_failed:
  "r \<Longrightarrow> attached w \<Longrightarrow> ret \<noteq> 0 \<Longrightarrow>
    stop_thread r ret rs w =
      (Returned, w\<lparr>done_flag := True,
        trace := trace w @ [Store_done True, Cond_signal, Load_running True, Join ret]
          @ (if ret = ESRCH \<or> ret = EINVAL \<or> ret = EDEADLK then [] else [Perror])\<rparr>)"
  by (simp add: stop_thread_def Let_def store_done_def pthread_cond_signal_def
      load_running_def pthread_join_def perror_def)

section \<open>Claims about stop\_thread\<close>

text \<open>
  Claim C1 says that \<open>stop_thread\<close> polls \<open>_running\<close> until it observes \<open>false\<close> whenever
  the join was skipped or failed, so that it never returns while the worker may still be
  executing. The code returns from every case of the \<open>switch\<close> on a failed join (lines 101
  to 115), before the loop of line 118. Here the join fails with \<open>EDEADLK\<close> while
  \<open>_running\<close> is true: \<open>stop_thread\<close> returns, and the trace holds no load of \<open>_running\<close>
  after the join, although the loop would have had to spin once before seeing \<open>false\<close>.
\<close>

theorem stop_thread_join_failed_returns_unpolled:
  "stop_thread True EDEADLK [True, False]
      \<lparr>done_flag = False, timeout_microseconds = 10000, attached = True,
        mutex_locked = False, trace = []\<rparr> =
    (Returned,
      \<lparr>done_flag = True, timeout_microseconds = 10000, attached = True,
        mutex_locked = False,
        trace = [Store_done True, Cond_signal, Load_running True, Join EDEADLK]\<rparr>)"
  by (simp add: stop_thread_def Let_def store_done_def pthread_cond_signal_def
      load_running_def pthread_join_def EDEADLK_def ESRCH_def EINVAL_def)

text \<open>
  Claim C1 as amended: when the join was skipped (\<open>_running\<close> or \<open>_attached\<close> false) or
  succeeded (returned 0), \<open>stop_thread\<close> polls \<open>_running\<close>, returns exactly when a load
  observes \<open>false\<close>, having loaded the values up to the first \<open>false\<close> and no more, and is
  still spinning as long as every load observes \<open>true\<close>. When the join was attempted and
  failed, \<open>stop_thread\<close> returns at once, with no load of \<open>_running\<close> after the join.
\<close>

theorem stop_thread_polls:
  "(\<not> (r \<and> attached w) \<or> ret = 0 \<longrightarrow>
      (fst (stop_thread r ret rs w) = Returned \<longleftrightarrow> False \<in> set rs) \<and>
      trace (snd (stop_thread r ret rs w)) =
        trace w @ [Store_done True, Cond_signal, Load_running r]
          @ (if r \<and> attached w then [Join 0] else [])
          @ map Load_running (if False \<in> set rs then takeWhile id rs @ [False] else rs)) \<and>
   (r \<and> attached w \<and> ret \<noteq> 0 \<longrightarrow>
      fst (stop_thread r ret rs w) = Returned \<and>
      trace (snd (stop_thread r ret rs w)) =
        trace w @ [Store_done True, Cond_signal, Load_running True, Join ret]
          @ (if ret = ESRCH \<or> ret = EINVAL \<or> ret = EDEADLK then [] else [Perror]))"
proof (intro conjI impI)
  assume h: "\<not> (r \<and> attached w) \<or> ret = 0"
  show "fst (stop_thread r ret rs w) = Returned \<longleftrightarrow> False \<in> set rs"
  proof (cases "r \<and> attached w")
    case True
    with h show ?thesis
      by (simp add: stop_thread_joined poll_running_eq)
  next
    case False
    then show ?thesis
      by (simp add: stop_thread_skip poll_running_eq)
  qed
  show "trace (snd (stop_thread r ret rs w)) =
        trace w @ [Store_done True, Cond_signal, Load_running r]
          @ (if r \<and> attached w then [Join 0] else [])
          @ map Load_running (if False \<in> set rs then takeWhile id rs @ [False] else rs)"
  proof (cases "r \<and> attached w")
    case True
    with h show ?thesis
      by (simp add: stop_thread_joined poll_running_eq)
  next
    case False
    then show ?thesis
      by (simp add: stop_thread_skip poll_running_eq)
  qed
next
  assume h: "r \<and> attached w \<and> ret \<noteq> 0"
  then show "fst (stop_thread r ret rs w) = Returned"
    by (simp add: stop_thread_join_failed)
  from h show "trace (snd (stop_thread r ret rs w)) =
        trace w @ [Store_done True, Cond_signal, Load_running True, Join ret]
          @ (if ret = ESRCH \<or> ret = EINVAL \<or> ret = EDEADLK then [] else [Perror])"
    by (simp add: stop_thread_join_failed)
qed

theorem stop_thread_polls_witness:
  "fst (stop_thread False 0 [True, True, False, True]
      \<lparr>done_flag = False, timeout_microseconds = 10000, attached = False,
        mutex_locked = False, trace = []\<rparr>) = Returned \<and>
   trace (snd (stop_thread False 0 [True, True, False, True]
      \<lparr>done_flag = False, timeout_microseconds = 10000, attached = False,
        mutex_locked = False, trace = []\<rparr>)) =
     [Store_done True, Cond_signal, Load_running False,
      Load_running True, Load_running True, Load_running False] \<and>
   fst (stop_thread True 7 [True, True, False, True]
      \<lparr>done_flag = False, timeout_microseconds = 10000, attached = True,
        mutex_locked = False, trace = []\<rparr>) = Returned \<and>
   trace (snd (stop_thread True 7 [True, True, False, True]
      \<lparr>done_flag = False, timeout_microseconds = 10000, attached = True,
        mutex_locked = False, trace = []\<rparr>)) =
     [Store_done True, Cond_signal, Load_running True, Join 7, Perror]"
  using
    stop_thread_polls [of False
      "\<lparr>done_flag = False, timeout_microseconds = 10000, attached = False,
        mutex_locked = False, trace = []\<rparr>" 0 "[True, True, False, True]"]
    stop_thread_polls [of True
      "\<lparr>done_flag = False, timeout_microseconds = 10000, attached = True,
        mutex_locked = False, trace = []\<rparr>" 7 "[True, True, False, True]"]
  by (simp add: ESRCH_def EINVAL_def EDEADLK_def)

text \<open>
  Claim C5: \<open>stop_thread\<close> attempts the join exactly when the load of \<open>_running\<close> observed
  \<open>true\<close> and \<open>_attached\<close> is true: the join then follows the load at once, and no other
  join is attempted in the call. A join that returns \<open>ESRCH\<close>, \<open>EINVAL\<close> or \<open>EDEADLK\<close>
  is a no-op: \<open>stop_thread\<close> returns normally, nothing is reported with \<open>perror\<close>, and
  the state is the one the store, the signal and the join left.
\<close>

theorem stop_thread_join_iff:
  "(\<exists>post.
      trace (snd (stop_thread r ret rs w)) =
        trace w @ [Store_done True, Cond_signal, Load_running r]
          @ (if r \<and> attached w then [Join ret] else []) @ post \<and>
      (\<forall>c. Join c \<notin> set post)) \<and>
   (r \<and> attached w \<and> (ret = ESRCH \<or> ret = EINVAL \<or> ret = EDEADLK) \<longrightarrow>
      stop_thread r ret rs w =
        (Returned, w\<lparr>done_flag := True,
          trace := trace w @ [Store_done True, Cond_signal, Load_running True, Join ret]\<rparr>))"
proof (intro conjI impI)
  show "\<exists>post.
      trace (snd (stop_thread r ret rs w)) =
        trace w @ [Store_done True, Cond_signal, Load_running r]
          @ (if r \<and> attached w then [Join ret] else []) @ post \<and>
      (\<forall>c. Join c \<notin> set post)"
  proof (cases "r \<and> attached w")
    case False
    then show ?thesis
      by (auto simp add: stop_thread_skip poll_running_eq)
  next
    case True
    show ?thesis
    proof (cases "ret = 0")
      case True
      with \<open>r \<and> attached w\<close> show ?thesis
        by (auto simp add: stop_thread_joined poll_running_eq)
    next
      case False
      with \<open>r \<and> attached w\<close> show ?thesis
        by (auto simp add: stop_thread_join_failed)
    qed
  qed
next
  assume h: "r \<and> attached w \<and> (ret = ESRCH \<or> ret = EINVAL \<or> ret = EDEADLK)"
  then have "ret \<noteq> 0"
    by (auto simp add: ESRCH_def EINVAL_def EDEADLK_def)
  with h show "stop_thread r ret rs w =
        (Returned, w\<lparr>done_flag := True,
          trace := trace w @ [Store_done True, Cond_signal, Load_running True, Join ret]\<rparr>)"
    by (simp add: stop_thread_join_failed)
qed

theorem stop_thread_join_iff_witness:
  "stop_thread True ESRCH [True]
      \<lparr>done_flag = False, timeout_microseconds = 10000, attached = True,
        mutex_locked = False, trace = []\<rparr> =
    (Returned,
      \<lparr>done_flag = True, timeout_microseconds = 10000, attached = True,
        mutex_locked = False,
        trace = [Store_done True, Cond_signal, Load_running True, Join ESRCH]\<rparr>)"
  using stop_thread_join_iff [of True ESRCH "[True]"
      "\<lparr>done_flag = False, timeout_microseconds = 10000, attached = True,
        mutex_locked = False, trace = []\<rparr>"]
  by simp

text \<open>
  Claim C6: in every execution of \<open>stop_thread\<close>, also one that is still spinning, the
  store of \<open>true\<close> to \<open>done\<close> is the first action and the signal on the condition
  variable the second; the call signals once and stores to \<open>done\<close> once, so the flag is
  true from the signal on. A \<open>wait()\<close> that checks the flag afterwards returns \<open>false\<close>.
\<close>

theorem stop_thread_done_before_signal:
  "\<exists>post.
      trace (snd (stop_thread r ret rs w)) = trace w @ [Store_done True, Cond_signal] @ post \<and>
      Cond_signal \<notin> set post \<and> (\<forall>b. Store_done b \<notin> set post) \<and>
      done_flag (snd (stop_thread r ret rs w)) \<and>
      wait tp rc (snd (stop_thread r ret rs w)) = (False, snd (stop_thread r ret rs w))"
proof (cases "r \<and> attached w")
  case False
  then show ?thesis
    by (auto simp add: stop_thread_skip poll_running_eq wait_def)
next
  case True
  show ?thesis
  proof (cases "ret = 0")
    case True
    with \<open>r \<and> attached w\<close> show ?thesis
      by (auto simp add: stop_thread_joined poll_running_eq wait_def)
  next
    case False
    with \<open>r \<and> attached w\<close> show ?thesis
      by (auto simp add: stop_thread_join_failed wait_def)
  qed
qed

section \<open>Claims about wait\<close>

text \<open>
  Claim C4: when \<open>done\<close> is already true at entry, \<open>wait()\<close> returns \<open>false\<close> and leaves
  the state as it was: no call of \<open>gettimeofday\<close>, no lock and no wait on the condition
  variable is added to the trace.
\<close>

theorem wait_terminated: "done_flag w \<Longrightarrow> wait tp rc w = (False, w)"
  by (simp add: wait_def)

theorem wait_terminated_witness:
  "wait \<lparr>timeval.tv_sec = 5, tv_usec = 900000\<rparr> 0
      \<lparr>done_flag = True, timeout_microseconds = 300000, attached = False,
        mutex_locked = False, trace = []\<rparr> =
    (False, \<lparr>done_flag = True, timeout_microseconds = 300000, attached = False,
        mutex_locked = False, trace = []\<rparr>)"
  using wait_terminated [of
      "\<lparr>done_flag = True, timeout_microseconds = 300000, attached = False,
        mutex_locked = False, trace = []\<rparr>" "\<lparr>timeval.tv_sec = 5, tv_usec = 900000\<rparr>" 0]
  by simp

text \<open>
  Claim C3: when \<open>wait()\<close> reaches the timed wait and that returns \<open>EINVAL\<close>, \<open>wait()\<close>
  unlocks the mutex and returns \<open>false\<close>; when it returns \<open>EPERM\<close>, \<open>wait()\<close> returns
  \<open>false\<close> with no unlock, the mutex still locked.
\<close>

theorem wait_anomalies:
  "\<not> done_flag w \<Longrightarrow>
    wait tp EINVAL w =
      (False, w\<lparr>mutex_locked := False,
        trace := trace w @
          [Gettimeofday tp, Mutex_lock,
           Cond_timedwait (deadline (timeout_microseconds w) tp) EINVAL, Mutex_unlock]\<rparr>) \<and>
    wait tp EPERM w =
      (False, w\<lparr>mutex_locked := True,
        trace := trace w @
          [Gettimeofday tp, Mutex_lock,
           Cond_timedwait (deadline (timeout_microseconds w) tp) EPERM]\<rparr>)"
  by (simp add: wait_eq) (simp add: EINVAL_def EPERM_def)

theorem wait_anomalies_witness:
  "wait \<lparr>timeval.tv_sec = 5, tv_usec = 900000\<rparr> EINVAL
      \<lparr>done_flag = False, timeout_microseconds = 300000, attached = False,
        mutex_locked = False, trace = []\<rparr> =
    (False, \<lparr>done_flag = False, timeout_microseconds = 300000, attached = False,
        mutex_locked = False,
        trace = [Gettimeofday \<lparr>timeval.tv_sec = 5, tv_usec = 900000\<rparr>, Mutex_lock,
          Cond_timedwait \<lparr>tv_sec = 6, tv_nsec = 200000000\<rparr> EINVAL, Mutex_unlock]\<rparr>) \<and>
   wait \<lparr>timeval.tv_sec = 5, tv_usec = 900000\<rparr> EPERM
      \<lparr>done_flag = False, timeout_microseconds = 300000, attached = False,
        mutex_locked = False, trace = []\<rparr> =
    (False, \<lparr>done_flag = False, timeout_microseconds = 300000, attached = False,
        mutex_locked = True,
        trace = [Gettimeofday \<lparr>timeval.tv_sec = 5, tv_usec = 900000\<rparr>, Mutex_lock,
          Cond_timedwait \<lparr>tv_sec = 6, tv_nsec = 200000000\<rparr> EPERM]\<rparr>)"
  using wait_anomalies [of
      "\<lparr>done_flag = False, timeout_microseconds = 300000, attached = False,
        mutex_locked = False, trace = []\<rparr>" "\<lparr>timeval.tv_sec = 5, tv_usec = 900000\<rparr>"]
  by (simp add: deadline_def MILLION_def)

text \<open>
  Claim C7: when \<open>wait()\<close> reaches the timed wait (it does whenever \<open>done\<close> is false at
  entry) and that returns \<open>ETIMEDOUT\<close>, \<open>wait()\<close> returns \<open>true\<close>; it returns \<open>true\<close>
  as well for every code other than \<open>ETIMEDOUT\<close>, \<open>EINVAL\<close> and \<open>EPERM\<close>, among them
  0, the code of a signal or of a spurious wake.
\<close>

theorem wait_true:
  "\<not> done_flag w \<Longrightarrow>
    fst (wait tp ETIMEDOUT w) \<and>
    (rc \<noteq> ETIMEDOUT \<and> rc \<noteq> EINVAL \<and> rc \<noteq> EPERM \<longrightarrow> fst (wait tp rc w)) \<and>
    Cond_timedwait (deadline (timeout_microseconds w) tp) rc \<in> set (trace (snd (wait tp rc w)))"
  by (simp add: wait_eq) (simp add: ETIMEDOUT_def EINVAL_def EPERM_def)

theorem wait_true_witness:
  "fst (wait \<lparr>timeval.tv_sec = 5, tv_usec = 900000\<rparr> ETIMEDOUT
      \<lparr>done_flag = False, timeout_microseconds = 300000, attached = False,
        mutex_locked = False, trace = []\<rparr>) \<and>
   fst (wait \<lparr>timeval.tv_sec = 5, tv_usec = 900000\<rparr> 0
      \<lparr>done_flag = False, timeout_microseconds = 300000, attached = False,
        mutex_locked = False, trace = []\<rparr>) \<and>
   Cond_timedwait \<lparr>tv_sec = 6, tv_nsec = 200000000\<rparr> 0 \<in>
     set (trace (snd (wait \<lparr>timeval.tv_sec = 5, tv_usec = 900000\<rparr> 0
      \<lparr>done_flag = False, timeout_microseconds = 300000, attached = False,
        mutex_locked = False, trace = []\<rparr>)))"
  using wait_true [of
      "\<lparr>done_flag = False, timeout_microseconds = 300000, attached = False,
        mutex_locked = False, trace = []\<rparr>" "\<lparr>timeval.tv_sec = 5, tv_usec = 900000\<rparr>" 0]
  by (simp add: deadline_def MILLION_def ETIMEDOUT_def EINVAL_def EPERM_def)

text \<open>
  Claim C9: when \<open>wait()\<close> reaches the timed wait and returns \<open>true\<close> (the code is
  neither \<open>EINVAL\<close> nor \<open>EPERM\<close>), its actions are the reading of the clock, the lock
  and the timed wait, with no unlock: it returns with the mutex still locked. The next
  \<open>wait()\<close> on that state reads the clock and locks the mutex again.
\<close>

theorem wait_true_keeps_mutex:
  "\<not> done_flag w \<Longrightarrow> rc \<noteq> EINVAL \<Longrightarrow> rc \<noteq> EPERM \<Longrightarrow>
    wait tp rc w =
      (True, w\<lparr>mutex_locked := True,
        trace := trace w @
          [Gettimeofday tp, Mutex_lock,
           Cond_timedwait (deadline (timeout_microseconds w) tp) rc]\<rparr>) \<and>
    (\<exists>post. trace (snd (wait tp' rc' (snd (wait tp rc w)))) =
      trace (snd (wait tp rc w)) @ [Gettimeofday tp', Mutex_lock] @ post)"
  by (simp add: wait_eq)

theorem wait_true_keeps_mutex_witness:
  "wait \<lparr>timeval.tv_sec = 5, tv_usec = 900000\<rparr> ETIMEDOUT
      \<lparr>done_flag = False, timeout_microseconds = 300000, attached = False,
        mutex_locked = False, trace = []\<rparr> =
    (True, \<lparr>done_flag = False, timeout_microseconds = 300000, attached = False,
        mutex_locked = True,
        trace = [Gettimeofday \<lparr>timeval.tv_sec = 5, tv_usec = 900000\<rparr>, Mutex_lock,
          Cond_timedwait \<lparr>tv_sec = 6, tv_nsec = 200000000\<rparr> ETIMEDOUT]\<rparr>)"
  using wait_true_keeps_mutex [of
      "\<lparr>done_flag = False, timeout_microseconds = 300000, attached = False,
        mutex_locked = False, trace = []\<rparr>" ETIMEDOUT
      "\<lparr>timeval.tv_sec = 5, tv_usec = 900000\<rparr>"]
  by (simp add: deadline_def MILLION_def ETIMEDOUT_def EINVAL_def EPERM_def)

subsection \<open>set\_timeout and a wait in progress\<close>

text \<open>
  With the same value at both reads, \<open>deadline_reads\<close> is \<open>deadline\<close>; a \<open>wait()\<close> that
  no \<open>set_timeout\<close> overtakes is \<open>wait\<close>.
\<close>

lemma deadline_reads_same: "deadline_reads timeout timeout tp = deadline timeout tp"
  by (simp add: deadline_reads_def deadline_def)

lemma wait_overtaken_none: "wait_overtaken tp rc None None None w = wait tp rc w"
  by (simp add: wait_overtaken_def wait_def overtake_def deadline_reads_same Let_def)

text \<open>
  What an overtaken \<open>wait()\<close> does when it reaches the timed wait: the seconds of its
  deadline come from the value the field holds at line 146, the microseconds from the
  value it holds at line 147, and the field is left as the last \<open>set_timeout\<close> wrote it.
\<close>

lemma wait_overtaken_eq:
  "\<not> done_flag w \<Longrightarrow>
    wait_overtaken tp rc i1 i2 i3 w =
      (rc \<noteq> EINVAL \<and> rc \<noteq> EPERM,
       w\<lparr>timeout_microseconds :=
           timeout_microseconds (overtake i3 (overtake i2 (overtake i1 w))),
         mutex_locked := rc \<noteq> EINVAL,
         trace := trace w @
           [Gettimeofday tp, Mutex_lock,
            Cond_timedwait
              (deadline_reads (timeout_microseconds (overtake i1 w))
                (timeout_microseconds (overtake i2 (overtake i1 w))) tp) rc]
           @ (if rc = EINVAL then [Mutex_unlock] else [])\<rparr>)"
  by (cases i1; cases i2; cases i3)
    (simp_all add: wait_overtaken_def overtake_def set_timeout_def timed_wait_def
      gettimeofday_def pthread_mutex_lock_def pthread_cond_timedwait_def
      pthread_mutex_unlock_def Let_def EINVAL_def ETIMEDOUT_def EPERM_def)

text \<open>
  Claim C8 says that \<open>wait()\<close> reads the timeout once at the start of the call, so that a
  \<open>set_timeout\<close> never changes the deadline of a wait already in progress. The code
  reads the field at lines 146 and 147, after the check of \<open>done\<close> and the reading of the
  clock. Here a \<open>wait()\<close> starts with a timeout of 300000 at the time \<open>(5, 900000)\<close>, for
  which the deadline is \<open>(6, 200000000)\<close>; \<open>set_timeout(2300000)\<close> overtakes it before
  line 146, and the wait in progress blocks until \<open>(8, 200000000)\<close>, the deadline of the
  new value.
\<close>

theorem wait_overtaken_uses_new_timeout:
  "wait_overtaken \<lparr>timeval.tv_sec = 5, tv_usec = 900000\<rparr> 0 (Some 2300000) None None
      \<lparr>done_flag = False, timeout_microseconds = 300000, attached = False,
        mutex_locked = False, trace = []\<rparr> =
    (True,
      \<lparr>done_flag = False, timeout_microseconds = 2300000, attached = False,
        mutex_locked = True,
        trace = [Gettimeofday \<lparr>timeval.tv_sec = 5, tv_usec = 900000\<rparr>, Mutex_lock,
          Cond_timedwait \<lparr>tv_sec = 8, tv_nsec = 200000000\<rparr> 0]\<rparr>) \<and>
   deadline 300000 \<lparr>timeval.tv_sec = 5, tv_usec = 900000\<rparr> =
     \<lparr>tv_sec = 6, tv_nsec = 200000000\<rparr>"
  by (simp add: wait_overtaken_def overtake_def set_timeout_def timed_wait_def
      gettimeofday_def pthread_mutex_lock_def pthread_cond_timedwait_def Let_def
      deadline_reads_def deadline_def MILLION_def EINVAL_def ETIMEDOUT_def EPERM_def)

text \<open>
  Claim C8 as amended: \<open>set_timeout T'\<close> writes the timeout field and nothing else.
  \<open>wait()\<close> reads the field when it computes its deadline, at lines 146 and 147, after
  the check of \<open>done\<close> and the reading of the clock, and computes the deadline once per
  call. So a \<open>wait()\<close> called after \<open>set_timeout T'\<close> waits until the deadline of
  \<open>T'\<close>; a \<open>wait()\<close> in progress that \<open>set_timeout T'\<close> overtakes before line 146 does
  the same, it is the call on the new value; and a \<open>wait()\<close> in progress that
  \<open>set_timeout T'\<close> overtakes after line 147 keeps the deadline of the old value, with
  the result and the actions of the undisturbed call, and leaves \<open>T'\<close> stored for the
  next call. (A \<open>set_timeout\<close> between the two reads is not part of the statement.)
\<close>

theorem set_timeout_next_wait:
  "\<not> done_flag w \<Longrightarrow>
    set_timeout T' w = w\<lparr>timeout_microseconds := T'\<rparr> \<and>
    trace (snd (wait tp rc (set_timeout T' w))) =
      trace w @ [Gettimeofday tp, Mutex_lock, Cond_timedwait (deadline T' tp) rc]
        @ (if rc = EINVAL then [Mutex_unlock] else []) \<and>
    wait_overtaken tp rc (Some T') None None w = wait tp rc (set_timeout T' w) \<and>
    wait_overtaken tp rc None None (Some T') w =
      (fst (wait tp rc w), set_timeout T' (snd (wait tp rc w))) \<and>
    trace (snd (wait_overtaken tp rc None None (Some T') w)) =
      trace w @
        [Gettimeofday tp, Mutex_lock, Cond_timedwait (deadline (timeout_microseconds w) tp) rc]
        @ (if rc = EINVAL then [Mutex_unlock] else [])"
proof (intro conjI)
  assume nd: "\<not> done_flag w"
  then have nd': "\<not> done_flag (set_timeout T' w)"
    by (simp add: set_timeout_def)
  show "set_timeout T' w = w\<lparr>timeout_microseconds := T'\<rparr>"
    by (simp add: set_timeout_def)
  show "trace (snd (wait tp rc (set_timeout T' w))) =
      trace w @ [Gettimeofday tp, Mutex_lock, Cond_timedwait (deadline T' tp) rc]
        @ (if rc = EINVAL then [Mutex_unlock] else [])"
    using nd' by (simp add: wait_eq) (simp add: set_timeout_def)
  show "wait_overtaken tp rc (Some T') None None w = wait tp rc (set_timeout T' w)"
    using nd nd'
    by (simp add: wait_overtaken_eq wait_eq overtake_def deadline_reads_same)
      (simp add: set_timeout_def)
  show "wait_overtaken tp rc None None (Some T') w =
      (fst (wait tp rc w), set_timeout T' (snd (wait tp rc w)))"
    using nd
    by (simp add: wait_overtaken_eq wait_eq overtake_def deadline_reads_same)
      (simp add: set_timeout_def)
  show "trace (snd (wait_overtaken tp rc None None (Some T') w)) =
      trace w @
        [Gettimeofday tp, Mutex_lock, Cond_timedwait (deadline (timeout_microseconds w) tp) rc]
        @ (if rc = EINVAL then [Mutex_unlock] else [])"
    using nd by (simp add: wait_overtaken_eq overtake_def deadline_reads_same)
qed

theorem set_timeout_next_wait_witness:
  "trace (snd (wait \<lparr>timeval.tv_sec = 5, tv_usec = 900000\<rparr> 0 (set_timeout 2300000
      \<lparr>done_flag = False, timeout_microseconds = 300000, attached = False,
        mutex_locked = False, trace = []\<rparr>))) =
     [Gettimeofday \<lparr>timeval.tv_sec = 5, tv_usec = 900000\<rparr>, Mutex_lock,
      Cond_timedwait \<lparr>tv_sec = 8, tv_nsec = 200000000\<rparr> 0] \<and>
   wait_overtaken \<lparr>timeval.tv_sec = 5, tv_usec = 900000\<rparr> 0 None None (Some 2300000)
      \<lparr>done_flag = False, timeout_microseconds = 300000, attached = False,
        mutex_locked = False, trace = []\<rparr> =
     (True,
      \<lparr>done_flag = False, timeout_microseconds = 2300000, attached = False,
        mutex_locked = True,
        trace = [Gettimeofday \<lparr>timeval.tv_sec = 5, tv_usec = 900000\<rparr>, Mutex_lock,
          Cond_timedwait \<lparr>tv_sec = 6, tv_nsec = 200000000\<rparr> 0]\<rparr>)"
  using set_timeout_next_wait [of
      "\<lparr>done_flag = False, timeout_microseconds = 300000, attached = False,
        mutex_locked = False, trace = []\<rparr>" 2300000
      "\<lparr>timeval.tv_sec = 5, tv_usec = 900000\<rparr>" 0]
  by (simp add: wait_eq deadline_def MILLION_def set_timeout_def EINVAL_def EPERM_def)

section \<open>Claims about the deadline\<close>

text \<open>
  Claim C2: for a clock \<open>(S, U)\<close> with \<open>0 \<le> U < 1000000\<close> and every timeout \<open>T\<close>, the
  deadline has \<open>T / 1000000\<close> whole seconds added to \<open>S\<close> and \<open>T % 1000000\<close> microseconds
  added to \<open>U\<close>; when that sum exceeds one million, exactly one more second is carried
  and one million is taken off the microseconds; the nanoseconds are a thousand times the
  microseconds. The clock \<open>(S, 900000)\<close> and the timeout 300000 give \<open>(S + 1, 200000 * 1000)\<close>.
  This deadline is the one \<open>wait()\<close> hands to the timed wait. (The seconds are a 64-bit
  sum; \<open>unat U\<close> is \<open>U\<close> itself under the hypotheses.)
\<close>

theorem wait_deadline_carry:
  fixes T :: "32 word" and S U :: "64 word"
  assumes "0 \<le> sint U" and "sint U < 1000000"
  shows "deadline T \<lparr>timeval.tv_sec = S, tv_usec = U\<rparr> =
      (if 1000000 < unat U + unat T mod 1000000
       then \<lparr>tv_sec = S + of_nat (unat T div 1000000) + 1,
              tv_nsec = of_nat (1000 * (unat U + unat T mod 1000000 - 1000000))\<rparr>
       else \<lparr>tv_sec = S + of_nat (unat T div 1000000),
              tv_nsec = of_nat (1000 * (unat U + unat T mod 1000000))\<rparr>) \<and>
    deadline 300000 \<lparr>timeval.tv_sec = S, tv_usec = 900000\<rparr> =
      \<lparr>tv_sec = S + 1, tv_nsec = 200000 * 1000\<rparr> \<and>
    (\<not> done_flag w \<longrightarrow>
      Cond_timedwait (deadline (timeout_microseconds w) tp) rc
        \<in> set (trace (snd (wait tp rc w))))"
proof (intro conjI impI)
  have "int (unat U) < 1000000"
    using assms by (simp only: unat_sint)
  then have "unat U \<le> 1000000"
    by linarith
  then show "deadline T \<lparr>timeval.tv_sec = S, tv_usec = U\<rparr> =
      (if 1000000 < unat U + unat T mod 1000000
       then \<lparr>tv_sec = S + of_nat (unat T div 1000000) + 1,
              tv_nsec = of_nat (1000 * (unat U + unat T mod 1000000 - 1000000))\<rparr>
       else \<lparr>tv_sec = S + of_nat (unat T div 1000000),
              tv_nsec = of_nat (1000 * (unat U + unat T mod 1000000))\<rparr>)"
    by (rule deadline_nat)
  show "deadline 300000 \<lparr>timeval.tv_sec = S, tv_usec = 900000\<rparr> =
      \<lparr>tv_sec = S + 1, tv_nsec = 200000 * 1000\<rparr>"
    by (simp add: deadline_def MILLION_def)
next
  assume "\<not> done_flag w"
  then show "Cond_timedwait (deadline (timeout_microseconds w) tp) rc
        \<in> set (trace (snd (wait tp rc w)))"
    by (simp add: wait_eq)
qed

theorem wait_deadline_carry_witness:
  "0 \<le> sint (999999 :: 64 word) \<and> sint (999999 :: 64 word) < 1000000 \<and>
   deadline 4294967295 \<lparr>timeval.tv_sec = 77, tv_usec = 999999\<rparr> =
     \<lparr>tv_sec = 4372, tv_nsec = 967294000\<rparr> \<and>
   Cond_timedwait \<lparr>tv_sec = 6, tv_nsec = 200000000\<rparr> 0 \<in>
     set (trace (snd (wait \<lparr>timeval.tv_sec = 5, tv_usec = 900000\<rparr> 0
      \<lparr>done_flag = False, timeout_microseconds = 300000, attached = False,
        mutex_locked = False, trace = []\<rparr>)))"
  using wait_deadline_carry [where U = 999999 and T = 4294967295 and S = 77
      and w = "\<lparr>done_flag = False, timeout_microseconds = 300000, attached = False,
        mutex_locked = False, trace = []\<rparr>"
      and tp = "\<lparr>timeval.tv_sec = 5, tv_usec = 900000\<rparr>" and rc = 0]
  by (simp add: deadline_def MILLION_def)

text \<open>
  Claim C10: when the microseconds of the clock and the remainder of the timeout add up
  to exactly one million, no second is carried (the test of line 150 is strict) and
  \<open>tv_nsec\<close> is 1000000000, which is not below one thousand million.
\<close>

theorem deadline_no_carry_at_million:
  fixes T :: "32 word" and S U :: "64 word"
  assumes "sint U + int (unat T mod 1000000) = 1000000"
  shows "deadline T \<lparr>timeval.tv_sec = S, tv_usec = U\<rparr> =
      \<lparr>tv_sec = S + of_nat (unat T div 1000000), tv_nsec = 1000000000\<rparr> \<and>
    \<not> sint (tv_nsec (deadline T \<lparr>timeval.tv_sec = S, tv_usec = U\<rparr>)) < 1000000000"
proof -
  have m: "unat T mod 1000000 < 1000000"
    by simp
  then have "0 \<le> sint U"
    using assms by linarith
  then have "int (unat U) = sint U"
    by (rule unat_sint)
  with assms have sum: "unat U + unat T mod 1000000 = 1000000"
    by linarith
  then have "unat U \<le> 1000000"
    by linarith
  from deadline_nat [OF this, of T S] sum
  have eq: "deadline T \<lparr>timeval.tv_sec = S, tv_usec = U\<rparr> =
      \<lparr>tv_sec = S + of_nat (unat T div 1000000), tv_nsec = 1000000000\<rparr>"
    by simp
  then show ?thesis
    by simp
qed

theorem deadline_no_carry_at_million_witness:
  "sint (500000 :: 64 word) + int (unat (2500000 :: 32 word) mod 1000000) = 1000000 \<and>
   deadline 2500000 \<lparr>timeval.tv_sec = 77, tv_usec = 500000\<rparr> =
     \<lparr>tv_sec = 79, tv_nsec = 1000000000\<rparr>"
  using deadline_no_carry_at_million [where U = 500000 and T = 2500000 and S = 77]
  by simp

end
